theory Spec2Isabelle
  imports Main "HOL-Library.Sublist"
begin

section \<open>Python string operations used by the two scripts\<close>

text \<open>
  A Python \<open>str\<close> is modelled as a \<^typ>\<open>string\<close>; a character stands for the code point
  of the same number (0 to 255). \<open>isspace\<close> lists the code points in that range that
  \<open>str.strip()\<close> removes: tab, line feed, vertical tab, form feed, carriage return, the four
  separators 0x1C to 0x1F, space, next line (0x85) and no-break space (0xA0).
\<close>

definition isspace :: "char \<Rightarrow> bool" where
  "isspace c = (of_char c \<in> set [9, 10, 11, 12, 13, 28, 29, 30, 31, 32, 133, 160 :: nat])"

text \<open>\<open>s.strip()\<close>: leading whitespace is dropped, then trailing whitespace.\<close>

definition strip :: "string \<Rightarrow> string" where
  "strip s = rev (dropWhile isspace (rev (dropWhile isspace s)))"

text \<open>\<open>sub in s\<close>: \<open>sub\<close> occurs in \<open>s\<close> as a contiguous, case-sensitive substring.\<close>

fun contains :: "string \<Rightarrow> string \<Rightarrow> bool" where
  "contains sub [] = (sub = [])"
| "contains sub (c # cs) = (prefix sub (c # cs) \<or> contains sub cs)"

text \<open>
  \<open>s.replace(old, new)\<close>: every occurrence of \<open>old\<close> is replaced, scanning from the left
  and continuing after each replaced occurrence. With an empty \<open>old\<close> Python puts \<open>new\<close>
  before every character and at the end.
\<close>

function str_replace :: "string \<Rightarrow> string \<Rightarrow> string \<Rightarrow> string" where
  "str_replace old new s =
     (if old = [] then new @ concat (map (\<lambda>c. c # new) s)
      else (case s of
              [] \<Rightarrow> []
            | c # cs \<Rightarrow>
                if prefix old s then new @ str_replace old new (drop (length old) s)
                else c # str_replace old new cs))"
  by pat_completeness auto
termination
  by (relation "measure (\<lambda>(old, new, s). length s)") auto

text \<open>\<open>sep.join(xs)\<close>.\<close>

fun str_join :: "string \<Rightarrow> string list \<Rightarrow> string" where
  "str_join sep [] = []"
| "str_join sep [x] = x"
| "str_join sep (x # y # ys) = x @ sep @ str_join sep (y # ys)"

text \<open>\<open>str(n)\<close> for a non-negative integer, as the f-strings format \<open>table_idx + 1\<close>.\<close>

function str_nat :: "nat \<Rightarrow> string" where
  "str_nat n =
     (if n < 10 then [''0123456789'' ! n]
      else str_nat (n div 10) @ [''0123456789'' ! (n mod 10)])"
  by pat_completeness auto
termination
  by (relation "measure id") auto

section \<open>The document as the parsing library presents it\<close>

text \<open>
  \<open>doc.paragraphs\<close> is a list of paragraphs with a text and a style; \<open>p_style\<close> is \<open>None\<close>
  when \<open>paragraph.style\<close> is absent, otherwise the style's name. \<open>doc.tables\<close> is a list
  of tables, a table a list of rows, a row a list of cells, and a cell the list of the texts
  of its paragraphs.
\<close>

record "paragraph" =
  p_text :: string
  p_style :: "string option"

type_synonym cell = "string list"
type_synonym row = "cell list"
type_synonym table = "row list"

record document =
  paragraphs :: "paragraph list"
  tables :: "table list"

section \<open>Paragraphs to Markdown lines\<close>

text \<open>\<open>paragraph.style.name if paragraph.style else 'Normal'\<close>.\<close>

definition style_name :: "paragraph \<Rightarrow> string" where
  "style_name p = (case p_style p of Some n \<Rightarrow> n | None \<Rightarrow> ''Normal'')"

text \<open>
  The \<open>if\<close>/\<open>elif\<close> chain of both scripts (\<open>analyze_docx.py\<close> lines 55 to 70,
  \<open>extract_docx_simple.py\<close> lines 49 to 64): the line appended for a non-empty paragraph.
\<close>

definition markdown_line :: "string \<Rightarrow> string \<Rightarrow> string" where
  "markdown_line style txt =
     (if contains ''Title'' style then ''# '' @ txt
      else if contains ''Heading 1'' style \<or> style = ''Heading1'' then ''# '' @ txt
      else if contains ''Heading 2'' style \<or> style = ''Heading2'' then ''## '' @ txt
      else if contains ''Heading 3'' style \<or> style = ''Heading3'' then ''### '' @ txt
      else if contains ''Heading 4'' style \<or> style = ''Heading4'' then ''#### '' @ txt
      else if contains ''Heading 5'' style \<or> style = ''Heading5'' then ''##### '' @ txt
      else if contains ''Heading 6'' style \<or> style = ''Heading6'' then ''###### '' @ txt
      else txt)"

text \<open>
  The loop over \<open>doc.paragraphs\<close>; \<open>md\<close> is \<open>markdown_content\<close>, which the loop only
  appends to. A paragraph whose stripped text is empty is skipped.
\<close>

fun process_paragraphs :: "string list \<Rightarrow> paragraph list \<Rightarrow> string list" where
  "process_paragraphs md [] = md"
| "process_paragraphs md (p # ps) =
     (let txt = strip (p_text p) in
      if txt \<noteq> [] then
        process_paragraphs (md @ [markdown_line (style_name p) txt, []]) ps
      else process_paragraphs md ps)"

section \<open>Tables to Markdown lines\<close>

text \<open>
  The loop over \<open>cell.paragraphs\<close>: \<open>cell_text\<close> starts empty; a space is added before a
  paragraph only when \<open>cell_text\<close> is already non-empty.
\<close>

fun join_paragraphs :: "string \<Rightarrow> cell \<Rightarrow> string" where
  "join_paragraphs cell_text [] = cell_text"
| "join_paragraphs cell_text (para # paras) =
     join_paragraphs ((if cell_text \<noteq> [] then cell_text @ '' '' else cell_text) @ strip para) paras"

text \<open>
  \<open>cell_text.replace("|", "\\|").replace("\n", " ").replace("\r", " ")\<close> and the
  \<open>strip()\<close> applied when the text is appended to \<open>row_data\<close>.
\<close>

definition escape_cell :: "string \<Rightarrow> string" where
  "escape_cell s =
     str_replace [CHR 0x0D] '' ''
       (str_replace [CHR 0x0A] '' '' (str_replace ''|'' [CHR 0x5C, CHR ''|''] s))"

definition cell_markdown :: "cell \<Rightarrow> string" where
  "cell_markdown c = strip (escape_cell (join_paragraphs [] c))"

definition row_data :: "row \<Rightarrow> string list" where
  "row_data r = map cell_markdown r"

text \<open>\<open>while len(row) < max_cols: row.append("")\<close>.\<close>

function pad_row :: "nat \<Rightarrow> string list \<Rightarrow> string list" where
  "pad_row max_cols r = (if length r < max_cols then pad_row max_cols (r @ [[]]) else r)"
  by pat_completeness auto
termination
  by (relation "measure (\<lambda>(max_cols, r). max_cols - length r)") auto

text \<open>\<open>"| " + " | ".join(row) + " |"\<close>.\<close>

definition row_line :: "string list \<Rightarrow> string" where
  "row_line r = ''| '' @ str_join '' | '' r @ '' |''"

text \<open>
  The grid of a table whose rows have been padded: the first row \<open>table_data[0]\<close> as
  header, the separator with one \<open>---\<close> per header cell, then the rows \<open>table_data[1:]\<close>.
  Both scripts reach these lines with a non-empty \<open>table_data\<close> only.
\<close>

fun grid_lines :: "string list list \<Rightarrow> string list" where
  "grid_lines [] = []"
| "grid_lines (headers # rest) =
     [row_line headers, row_line (replicate (length headers) ''---'')] @ map row_line rest"

subsection \<open>\<open>analyze_docx.py\<close>\<close>

text \<open>
  Lines 88 to 108: the loop over \<open>table.rows\<close> builds \<open>table_data\<close> and keeps the running
  maximum \<open>max_cols\<close>.
\<close>

fun collect_rows :: "string list list \<Rightarrow> nat \<Rightarrow> table \<Rightarrow> string list list \<times> nat" where
  "collect_rows table_data max_cols [] = (table_data, max_cols)"
| "collect_rows table_data max_cols (r # rs) =
     collect_rows (table_data @ [row_data r]) (max max_cols (length (row_data r))) rs"

text \<open>Lines 110 to 128: the lines appended between the table's heading and its closing blank line.\<close>

definition table_grid_exact :: "table \<Rightarrow> string list" where
  "table_grid_exact t =
     (case collect_rows [] 0 t of
        (table_data, max_cols) \<Rightarrow>
          if table_data \<noteq> [] \<and> 0 < max_cols then
            (let padded = map (pad_row max_cols) table_data in
             if 0 < length padded then grid_lines padded else [])
          else [])"

text \<open>Lines 84 to 130 for the table with index \<open>table_idx\<close>.\<close>

definition table_lines_exact :: "nat \<Rightarrow> table \<Rightarrow> string list" where
  "table_lines_exact table_idx t =
     [''## Table '' @ str_nat (table_idx + 1), []] @ table_grid_exact t @ [[]]"

fun process_tables_exact :: "string list \<Rightarrow> nat \<Rightarrow> table list \<Rightarrow> string list" where
  "process_tables_exact md table_idx [] = md"
| "process_tables_exact md table_idx (t # ts) =
     process_tables_exact (md @ table_lines_exact table_idx t) (Suc table_idx) ts"

text \<open>Lines 40 to 130: \<open>markdown_content\<close> when the write is reached.\<close>

definition markdown_content_exact :: "document \<Rightarrow> string list" where
  "markdown_content_exact doc =
     (let md = process_paragraphs [] (paragraphs doc) in
      if tables doc \<noteq> [] then
        process_tables_exact (md @ [''---'', [], ''# TABLES SECTION'', []]) 0 (tables doc)
      else md)"

subsection \<open>\<open>extract_docx_simple.py\<close>\<close>

text \<open>
  Line 104: \<open>max(len(row) for row in table_data) if table_data else 0\<close>.
\<close>

definition max_cols_simple :: "string list list \<Rightarrow> nat" where
  "max_cols_simple table_data =
     (case table_data of [] \<Rightarrow> 0 | r # rs \<Rightarrow> fold (\<lambda>x m. max m (length x)) rs (length r))"

text \<open>Lines 83 to 117.\<close>

definition table_grid_simple :: "table \<Rightarrow> string list" where
  "table_grid_simple t =
     (let table_data = map row_data t in
      if table_data \<noteq> [] then
        (let max_cols = max_cols_simple table_data;
             padded = map (pad_row max_cols) table_data in
         if 0 < max_cols then grid_lines padded else [])
      else [])"

definition table_lines_simple :: "nat \<Rightarrow> table \<Rightarrow> string list" where
  "table_lines_simple table_idx t =
     [''## Table '' @ str_nat (table_idx + 1), []] @ table_grid_simple t @ [[]]"

fun process_tables_simple :: "string list \<Rightarrow> nat \<Rightarrow> table list \<Rightarrow> string list" where
  "process_tables_simple md table_idx [] = md"
| "process_tables_simple md table_idx (t # ts) =
     process_tables_simple (md @ table_lines_simple table_idx t) (Suc table_idx) ts"

definition markdown_content_simple :: "document \<Rightarrow> string list" where
  "markdown_content_simple doc =
     (let md = process_paragraphs [] (paragraphs doc) in
      if tables doc \<noteq> [] then
        process_tables_simple (md @ [''---'', [], ''# DOCUMENT TABLES'', []]) 0 (tables doc)
      else md)"

section \<open>The conversion as a whole: files, errors and reports\<close>

text \<open>
  A path of the file system holds either a document the library can open or anything else
  (text, such as a written Markdown file; opening it as a document raises). \<open>writable\<close>
  tells for which paths \<open>open(path, 'w')\<close> succeeds. Installing the library
  (\<open>install_docx\<close>) is taken as done.
\<close>

datatype file_content = Docx document | NotDocx string

record filesystem =
  files :: "string \<rightharpoonup> file_content"
  writable :: "string \<Rightarrow> bool"

datatype error = ParseError | IOError

text \<open>
  What the run prints about a failure: the line of the existence check, or the line and
  traceback of the \<open>except\<close> clause. The progress and preview lines of a successful run are
  not recorded.
\<close>

datatype report = Line string | Exception error

text \<open>\<open>filename.replace('.docx', '_exact_extraction.md')\<close>.\<close>

definition output_filename :: "string \<Rightarrow> string" where
  "output_filename filename = str_replace ''.docx'' ''_exact_extraction.md'' filename"

text \<open>\<open>with open(output_filename, 'w', encoding='utf-8') as f: f.write('\n'.join(markdown_content))\<close>.\<close>

definition write_markdown :: "filesystem \<Rightarrow> string \<Rightarrow> string list \<Rightarrow> error + filesystem" where
  "write_markdown fs out md =
     (if writable fs out
      then Inr (fs\<lparr>files := (files fs)(out \<mapsto> NotDocx (str_join [CHR 0x0A] md))\<rparr>)
      else Inl IOError)"

text \<open>
  \<open>extract_docx_simple\<close>: the returned value (\<open>None\<close> or the output file name), the file
  system afterwards and the reports.
\<close>

definition extract_docx_simple ::
  "filesystem \<Rightarrow> string \<Rightarrow> string option \<times> filesystem \<times> report list" where
  "extract_docx_simple fs filename =
     (case files fs filename of
        None \<Rightarrow> (None, fs, [Line (''Error: File '' @ [CHR 0x27] @ filename @ [CHR 0x27] @ '' not found'')])
      | Some (NotDocx _) \<Rightarrow> (None, fs, [Exception ParseError])
      | Some (Docx doc) \<Rightarrow>
          (case write_markdown fs (output_filename filename) (markdown_content_simple doc) of
             Inl e \<Rightarrow> (None, fs, [Exception e])
           | Inr fs' \<Rightarrow> (Some (output_filename filename), fs', [])))"

text \<open>
  \<open>extract_docx_exact\<close> has no \<open>return\<close> with a value: it returns \<open>None\<close> on every path.
\<close>

definition extract_docx_exact ::
  "filesystem \<Rightarrow> string \<Rightarrow> string option \<times> filesystem \<times> report list" where
  "extract_docx_exact fs filename =
     (case files fs filename of
        None \<Rightarrow> (None, fs, [Line (''Error: File '' @ [CHR 0x27] @ filename @ [CHR 0x27] @ '' not found'')])
      | Some (NotDocx _) \<Rightarrow> (None, fs, [Exception ParseError])
      | Some (Docx doc) \<Rightarrow>
          (case write_markdown fs (output_filename filename) (markdown_content_exact doc) of
             Inl e \<Rightarrow> (None, fs, [Exception e])
           | Inr fs' \<Rightarrow> (None, fs', [])))"

section \<open>Notions the properties are stated with\<close>

text \<open>
  The style mapping as an ordered table: the substring looked for, the names matched
  exactly, and the prefix. \<open>first_match\<close> returns the prefix of the first rule that applies,
  the empty prefix when none does.
\<close>

definition heading_rules :: "(string \<times> string list \<times> string) list" where
  "heading_rules =
     [(''Title'', [], ''# ''),
      (''Heading 1'', [''Heading1''], ''# ''),
      (''Heading 2'', [''Heading2''], ''## ''),
      (''Heading 3'', [''Heading3''], ''### ''),
      (''Heading 4'', [''Heading4''], ''#### ''),
      (''Heading 5'', [''Heading5''], ''##### ''),
      (''Heading 6'', [''Heading6''], ''###### '')]"

fun first_match :: "(string \<times> string list \<times> string) list \<Rightarrow> string \<Rightarrow> string" where
  "first_match [] style = []"
| "first_match ((sub, exact, pre) # rules) style =
     (if contains sub style \<or> style \<in> set exact then pre else first_match rules style)"

text \<open>The lines one paragraph adds to \<open>markdown_content\<close>.\<close>

definition para_lines :: "paragraph \<Rightarrow> string list" where
  "para_lines p =
     (if strip (p_text p) \<noteq> [] then [markdown_line (style_name p) (strip (p_text p)), []]
      else [])"

text \<open>The number of cells of the longest row of a table that has a row.\<close>

definition max_cells :: "'a list list \<Rightarrow> nat" where
  "max_cells t = Max (length ` set t)"

text \<open>
  Splitting a line at its unescaped pipes: a pipe is escaped when the character before it
  is a backslash; \<open>esc\<close> tells whether the character before the text is one. The fields of
  a grid line are the pieces between its first and its last delimiter.
\<close>

fun split_unescaped :: "bool \<Rightarrow> string \<Rightarrow> string list" where
  "split_unescaped esc [] = [[]]"
| "split_unescaped esc (c # cs) =
     (if c = CHR ''|'' \<and> \<not> esc then [] # split_unescaped False cs
      else (case split_unescaped (c = CHR 0x5C) cs of
              [] \<Rightarrow> [[c]]
            | f # fs \<Rightarrow> (c # f) # fs))"

definition grid_fields :: "string \<Rightarrow> string list" where
  "grid_fields l = butlast (tl (split_unescaped False l))"

text \<open>Every pipe of the text has a backslash right before it.\<close>

fun escaped_pipes :: "bool \<Rightarrow> string \<Rightarrow> bool" where
  "escaped_pipes esc [] = True"
| "escaped_pipes esc (c # cs) =
     ((if c = CHR ''|'' then esc else True) \<and> escaped_pipes (c = CHR 0x5C) cs)"

text \<open>
  The escaping character by character: a pipe gets a backslash in front, a line feed or a
  carriage return becomes a space, every other character stays.
\<close>

definition escape_char :: "char \<Rightarrow> string" where
  "escape_char c =
     (if c = CHR ''|'' then [CHR 0x5C, CHR ''|'']
      else if c = CHR 0x0A \<or> c = CHR 0x0D then '' ''
      else [c])"

text \<open>
  The document of the two-paragraph scenario: a \<open>Title\<close> paragraph \<open>Report\<close>, a \<open>Normal\<close>
  paragraph \<open>Hello world\<close>, no tables.
\<close>

definition report_doc :: document where
  "report_doc =
     \<lparr>paragraphs = [\<lparr>p_text = ''Report'', p_style = Some ''Title''\<rparr>,
                    \<lparr>p_text = ''Hello world'', p_style = Some ''Normal''\<rparr>],
      tables = []\<rparr>"

section \<open>Facts about the string operations\<close>

declare str_replace.simps [simp del]
declare pad_row.simps [simp del]
declare str_nat.simps [simp del]

lemma str_replace_single:
  "str_replace [a] new s = concat (map (\<lambda>c. if c = a then new else [c]) s)"
proof (induction s)
  case Nil
  show ?case by (subst str_replace.simps) simp
next
  case (Cons c cs)
  have "str_replace [a] new (c # cs) =
          (if c = a then new @ str_replace [a] new cs else c # str_replace [a] new cs)"
    by (subst str_replace.simps) simp
  with Cons show ?case by simp
qed

lemma pad_row_eq: "pad_row m r = r @ replicate (m - length r) []"
proof (induction m r rule: pad_row.induct)
  case (1 m r)
  show ?case
  proof (cases "length r < m")
    case True
    then have "m - length r = Suc (m - Suc (length r))" by simp
    with 1 True show ?thesis
      by (subst pad_row.simps) (simp add: replicate_app_Cons_same)
  next
    case False
    then show ?thesis by (subst pad_row.simps) simp
  qed
qed

lemma not_isspace_backslash: "\<not> isspace (CHR 0x5C)"
  by (simp add: isspace_def)

lemma not_isspace_pipe: "\<not> isspace (CHR ''|'')"
  by (simp add: isspace_def)

section \<open>Facts about the paragraph loop and the cell loop\<close>

lemma process_paragraphs_concat:
  "process_paragraphs md ps = md @ concat (map para_lines ps)"
  by (induction ps arbitrary: md) (simp_all add: para_lines_def Let_def)

lemma markdown_line_first_match:
  "markdown_line style txt = first_match heading_rules style @ txt"
  by (simp add: markdown_line_def heading_rules_def)

lemma join_paragraphs_nonempty:
  "acc \<noteq> [] \<Longrightarrow> join_paragraphs acc ps = acc @ concat (map (\<lambda>p. '' '' @ strip p) ps)"
  by (induction ps arbitrary: acc) simp_all

lemma join_paragraphs_empty:
  "join_paragraphs [] ps = str_join '' '' (dropWhile (\<lambda>t. t = []) (map strip ps))"
proof (induction ps)
  case Nil
  show ?case by simp
next
  case (Cons p ps)
  show ?case
  proof (cases "strip p = []")
    case True
    with Cons show ?thesis by simp
  next
    case False
    have "str_join '' '' (strip p # map strip ps) = strip p @ concat (map (\<lambda>p. '' '' @ strip p) ps)"
      by (induction ps arbitrary: p) simp_all
    with False show ?thesis by (simp add: join_paragraphs_nonempty)
  qed
qed

section \<open>Facts about splitting a grid line\<close>

lemma split_unescaped_nonempty: "split_unescaped esc s \<noteq> []"
  by (induction s arbitrary: esc) (auto split: list.splits)

lemma split_unescaped_append:
  "escaped_pipes esc s \<Longrightarrow>
   split_unescaped esc (s @ CHR '' '' # t) =
     (s @ CHR '' '' # hd (split_unescaped False t)) # tl (split_unescaped False t)"
proof (induction s arbitrary: esc)
  case Nil
  show ?case using split_unescaped_nonempty [of False t]
    by (cases "split_unescaped False t") simp_all
next
  case (Cons c cs)
  then show ?case by (auto split: list.splits)
qed

lemma escaped_pipes_append:
  "escaped_pipes esc (s @ t) =
     (escaped_pipes esc s \<and> escaped_pipes (if s = [] then esc else last s = CHR 0x5C) t)"
  by (induction s arbitrary: esc) auto

lemma split_row_cells:
  "\<forall>c \<in> set cells. escaped_pipes False c \<Longrightarrow>
   split_unescaped False (concat (map (\<lambda>c. CHR '' '' # c @ '' |'') cells)) =
     map (\<lambda>c. CHR '' '' # c @ '' '') cells @ [[]]"
proof (induction cells)
  case Nil
  show ?case by simp
next
  case (Cons c cs)
  let ?rest = "concat (map (\<lambda>c. CHR '' '' # c @ '' |'') cs)"
  have ep: "escaped_pipes False (CHR '' '' # c)" using Cons.prems by simp
  have "split_unescaped False ((CHR '' '' # c) @ CHR '' '' # (CHR ''|'' # ?rest)) =
          ((CHR '' '' # c) @ CHR '' '' # hd (split_unescaped False (CHR ''|'' # ?rest)))
            # tl (split_unescaped False (CHR ''|'' # ?rest))"
    by (rule split_unescaped_append [OF ep])
  moreover have "split_unescaped False ?rest = map (\<lambda>c. CHR '' '' # c @ '' '') cs @ [[]]"
    using Cons by simp
  ultimately show ?case by simp
qed

lemma row_line_concat:
  "cells \<noteq> [] \<Longrightarrow>
   row_line cells = CHR ''|'' # concat (map (\<lambda>c. CHR '' '' # c @ '' |'') cells)"
proof -
  have "cells \<noteq> [] \<Longrightarrow>
        CHR '' '' # str_join '' | '' cells @ '' |'' = concat (map (\<lambda>c. CHR '' '' # c @ '' |'') cells)"
    by (induction "'' | ''" cells rule: str_join.induct) simp_all
  then show "cells \<noteq> [] \<Longrightarrow> ?thesis" by (simp add: row_line_def)
qed

lemma grid_fields_row_line:
  assumes "cells \<noteq> []" and "\<forall>c \<in> set cells. escaped_pipes False c"
  shows "grid_fields (row_line cells) = map (\<lambda>c. '' '' @ c @ '' '') cells"
  using assms by (simp add: grid_fields_def row_line_concat split_row_cells)

section \<open>Facts about the cleaned cell text\<close>

lemma escaped_pipes_escape:
  "escaped_pipes esc (concat (map (\<lambda>c. if c = CHR ''|'' then [CHR 0x5C, CHR ''|''] else [c]) s))"
  by (induction s arbitrary: esc) simp_all

lemma escaped_pipes_blank:
  "a \<noteq> CHR ''|'' \<Longrightarrow> a \<noteq> CHR 0x5C \<Longrightarrow> escaped_pipes esc s \<Longrightarrow>
   escaped_pipes esc (concat (map (\<lambda>c. if c = a then '' '' else [c]) s))"
  by (induction s arbitrary: esc) auto

lemma escaped_pipes_dropWhile:
  "escaped_pipes False s \<Longrightarrow> escaped_pipes False (dropWhile isspace s)"
proof (induction s)
  case Nil
  show ?case by simp
next
  case (Cons c cs)
  show ?case
  proof (cases "isspace c")
    case True
    then have "c \<noteq> CHR 0x5C" using not_isspace_backslash by blast
    with Cons True show ?thesis by simp
  next
    case False
    with Cons.prems show ?thesis by (simp split: if_splits)
  qed
qed

lemma strip_suffix:
  "dropWhile isspace s = strip s @ rev (takeWhile isspace (rev (dropWhile isspace s)))"
proof -
  let ?u = "dropWhile isspace s"
  have "rev (takeWhile isspace (rev ?u) @ dropWhile isspace (rev ?u)) = ?u"
    by simp
  then show ?thesis
    by (simp add: strip_def del: takeWhile_dropWhile_id)
qed

lemma escaped_pipes_strip:
  assumes "escaped_pipes False s"
  shows "escaped_pipes False (strip s)"
proof -
  have "escaped_pipes False (dropWhile isspace s)"
    using assms by (rule escaped_pipes_dropWhile)
  then show ?thesis
    by (metis strip_suffix escaped_pipes_append)
qed

lemma escaped_pipes_cell_markdown: "escaped_pipes False (cell_markdown c)"
  by (simp add: cell_markdown_def escape_cell_def str_replace_single
      escaped_pipes_strip escaped_pipes_blank escaped_pipes_escape)

section \<open>Facts about the column count\<close>

lemma fold_max_Max:
  "fold (\<lambda>r m. max m (length r)) rs m0 = Max (insert m0 (length ` set rs))"
proof (induction rs arbitrary: m0)
  case Nil
  show ?case by simp
next
  case (Cons r rs)
  have "Max (insert (max m0 (length r)) (length ` set rs)) =
        Max (insert m0 (insert (length r) (length ` set rs)))"
    by (cases "set rs = {}") (simp_all add: max.assoc)
  with Cons show ?case by simp
qed

lemma length_row_data: "length (row_data r) = length r"
  by (simp add: row_data_def)

lemma collect_rows_eq:
  "collect_rows td mc rs =
     (td @ map row_data rs, fold (\<lambda>r m. max m (length r)) rs mc)"
  by (induction rs arbitrary: td mc) (simp_all add: length_row_data)

lemma collect_rows_max_cells:
  "t \<noteq> [] \<Longrightarrow> collect_rows [] 0 t = (map row_data t, max_cells t)"
proof -
  assume "t \<noteq> []"
  then have "Max (insert 0 (length ` set t)) = Max (length ` set t)"
    by (simp add: max_def)
  then show ?thesis by (simp add: collect_rows_eq fold_max_Max max_cells_def)
qed

lemma max_cols_simple_max_cells:
  assumes "t \<noteq> []"
  shows "max_cols_simple (map row_data t) = max_cells t"
proof -
  obtain r rs where t: "t = r # rs" using assms by (cases t) auto
  show ?thesis
    by (simp add: t max_cols_simple_def fold_max_Max length_row_data max_cells_def image_image)
qed

lemma length_le_max_cells: "r \<in> set t \<Longrightarrow> length r \<le> max_cells t"
  by (simp add: max_cells_def)

lemma table_grid_exact_eq:
  assumes "t \<noteq> []" and "0 < max_cells t"
  shows "table_grid_exact t = grid_lines (map (\<lambda>r. pad_row (max_cells t) (row_data r)) t)"
  using assms by (simp add: table_grid_exact_def collect_rows_max_cells comp_def)

lemma table_grid_simple_eq:
  assumes "t \<noteq> []" and "0 < max_cells t"
  shows "table_grid_simple t = grid_lines (map (\<lambda>r. pad_row (max_cells t) (row_data r)) t)"
  using assms by (simp add: table_grid_simple_def max_cols_simple_max_cells Let_def comp_def)

lemma table_grid_exact_empty:
  assumes "t = [] \<or> max_cells t = 0"
  shows "table_grid_exact t = []"
proof (cases "t = []")
  case True
  then show ?thesis by (simp add: table_grid_exact_def)
next
  case False
  with assms have "max_cells t = 0" by simp
  with False show ?thesis by (simp add: table_grid_exact_def collect_rows_max_cells)
qed

lemma table_grid_simple_empty:
  assumes "t = [] \<or> max_cells t = 0"
  shows "table_grid_simple t = []"
proof (cases "t = []")
  case True
  then show ?thesis by (simp add: table_grid_simple_def)
next
  case False
  with assms have "max_cells t = 0" by simp
  with False show ?thesis by (simp add: table_grid_simple_def max_cols_simple_max_cells Let_def)
qed

lemma padded_row:
  assumes "r \<in> set t"
  shows "length (pad_row (max_cells t) (row_data r)) = max_cells t"
    and "\<forall>c \<in> set (pad_row (max_cells t) (row_data r)). escaped_pipes False c"
proof -
  from assms have "length r \<le> max_cells t" by (rule length_le_max_cells)
  then show "length (pad_row (max_cells t) (row_data r)) = max_cells t"
    by (simp add: pad_row_eq length_row_data)
  show "\<forall>c \<in> set (pad_row (max_cells t) (row_data r)). escaped_pipes False c"
    by (auto simp: pad_row_eq row_data_def escaped_pipes_cell_markdown)
qed

lemma fields_padded_row:
  assumes "r \<in> set t" and "0 < max_cells t"
  shows "grid_fields (row_line (pad_row (max_cells t) (row_data r))) =
           map (\<lambda>c. '' '' @ c @ '' '') (pad_row (max_cells t) (row_data r))"
proof -
  have "pad_row (max_cells t) (row_data r) \<noteq> []"
    using padded_row(1) [OF assms(1)] assms(2) by auto
  then show ?thesis
    using padded_row(2) [OF assms(1)] by (rule grid_fields_row_line)
qed

lemma fields_separator:
  assumes "0 < n"
  shows "grid_fields (row_line (replicate n ''---'')) = replicate n '' --- ''"
proof -
  have "replicate n ''---'' \<noteq> []" using assms by simp
  moreover have "\<forall>c \<in> set (replicate n ''---''). escaped_pipes False c" by simp
  ultimately have "grid_fields (row_line (replicate n ''---'')) =
      map (\<lambda>c. '' '' @ c @ '' '') (replicate n ''---'')"
    by (rule grid_fields_row_line)
  then show ?thesis by simp
qed

lemma grid_lines_padded:
  assumes "t \<noteq> []"
  shows "grid_lines (map (\<lambda>r. pad_row (max_cells t) (row_data r)) t) =
           row_line (pad_row (max_cells t) (row_data (hd t)))
           # row_line (replicate (max_cells t) ''---'')
           # map (\<lambda>r. row_line (pad_row (max_cells t) (row_data r))) (tl t)"
proof -
  obtain r rs where t: "t = r # rs" using assms by (cases t) auto
  have "length (pad_row (max_cells t) (row_data r)) = max_cells t"
    by (rule padded_row(1)) (simp add: t)
  then show ?thesis by (simp add: t comp_def)
qed

section \<open>Facts about the loop over the tables\<close>

text \<open>Each table adds its own lines, numbered from \<open>table_idx + 1\<close>, in document order.\<close>

lemma process_tables_exact_concat:
  "process_tables_exact md i ts =
     md @ concat (map (\<lambda>(k, t). table_lines_exact k t) (zip [i..<i + length ts] ts))"
proof (induction ts arbitrary: md i)
  case Nil
  show ?case by simp
next
  case (Cons t ts)
  have "[i..<i + length (t # ts)] = i # [Suc i..<i + length (t # ts)]"
    by (rule upt_conv_Cons) simp
  then have "[i..<i + length (t # ts)] = i # [Suc i..<Suc i + length ts]"
    by simp
  then show ?case by (simp add: Cons del: upt_Suc length_Cons)
qed

lemma process_tables_simple_concat:
  "process_tables_simple md i ts =
     md @ concat (map (\<lambda>(k, t). table_lines_simple k t) (zip [i..<i + length ts] ts))"
proof (induction ts arbitrary: md i)
  case Nil
  show ?case by simp
next
  case (Cons t ts)
  have "[i..<i + length (t # ts)] = i # [Suc i..<i + length (t # ts)]"
    by (rule upt_conv_Cons) simp
  then have "[i..<i + length (t # ts)] = i # [Suc i..<Suc i + length ts]"
    by simp
  then show ?case by (simp add: Cons del: upt_Suc length_Cons)
qed

section \<open>Escaping and trimming commute\<close>

lemma escape_cell_char: "escape_cell s = concat (map escape_char s)"
proof (induction s)
  case Nil
  show ?case by (simp add: escape_cell_def str_replace_single)
next
  case (Cons c cs)
  have app: "escape_cell (c # cs) = escape_cell [c] @ escape_cell cs"
    by (simp add: escape_cell_def str_replace_single)
  have one: "escape_cell [c] = escape_char c"
    by (simp add: escape_cell_def str_replace_single escape_char_def)
  show ?case by (simp add: app one Cons)
qed

lemma dropWhile_concat_map:
  assumes ws: "\<And>c. isspace c \<Longrightarrow> \<forall>x \<in> set (f c). isspace x"
      and nws: "\<And>c. \<not> isspace c \<Longrightarrow> f c \<noteq> [] \<and> \<not> isspace (hd (f c))"
  shows "dropWhile isspace (concat (map f s)) = concat (map f (dropWhile isspace s))"
proof (induction s)
  case Nil
  show ?case by simp
next
  case (Cons c cs)
  show ?case
  proof (cases "isspace c")
    case True
    then have "dropWhile isspace (f c @ concat (map f cs)) = dropWhile isspace (concat (map f cs))"
      using ws by (simp add: dropWhile_append2)
    with True Cons show ?thesis by simp
  next
    case False
    then obtain x xs where fc: "f c = x # xs" and "\<not> isspace x"
      using nws [of c] by (cases "f c") auto
    with False show ?thesis by simp
  qed
qed

lemma escape_char_space:
  "isspace c \<Longrightarrow> \<forall>x \<in> set (escape_char c). isspace x"
  by (auto simp: escape_char_def isspace_def)

lemma escape_char_nonspace:
  "\<not> isspace c \<Longrightarrow> escape_char c \<noteq> [] \<and> \<not> isspace (hd (escape_char c))"
  by (auto simp: escape_char_def isspace_def)

lemma rev_escape_char_nonspace:
  "\<not> isspace c \<Longrightarrow> rev (escape_char c) \<noteq> [] \<and> \<not> isspace (hd (rev (escape_char c)))"
  by (auto simp: escape_char_def isspace_def)

lemma rev_concat_escape:
  "rev (concat (map escape_char s)) = concat (map (\<lambda>c. rev (escape_char c)) (rev s))"
  by (simp add: rev_concat rev_map comp_def)

lemma strip_escape:
  "strip (concat (map escape_char s)) = concat (map escape_char (strip s))"
proof -
  let ?E = "\<lambda>s. concat (map escape_char s)"
  let ?R = "\<lambda>s. concat (map (\<lambda>c. rev (escape_char c)) s)"
  have front: "dropWhile isspace (?E s) = ?E (dropWhile isspace s)" for s
    by (rule dropWhile_concat_map) (simp_all add: escape_char_space escape_char_nonspace)
  have rear: "dropWhile isspace (?R s) = ?R (dropWhile isspace s)" for s
    by (rule dropWhile_concat_map)
      (simp_all add: escape_char_space escape_char_nonspace rev_escape_char_nonspace)
  have "strip (?E s) = rev (dropWhile isspace (rev (?E (dropWhile isspace s))))"
    by (simp add: strip_def front)
  also have "\<dots> = rev (dropWhile isspace (?R (rev (dropWhile isspace s))))"
    by (simp only: rev_concat_escape)
  also have "\<dots> = rev (?R (dropWhile isspace (rev (dropWhile isspace s))))"
    by (simp only: rear)
  also have "\<dots> = ?E (rev (dropWhile isspace (rev (dropWhile isspace s))))"
    by (simp add: rev_concat rev_map comp_def)
  finally show ?thesis by (simp add: strip_def)
qed

lemma cell_markdown_trim_then_escape:
  "cell_markdown c = concat (map escape_char (strip (join_paragraphs [] c)))"
  by (simp add: cell_markdown_def escape_cell_char strip_escape)

lemma str_join_leading_empty:
  "\<exists>k. str_join '' '' xs = replicate k (CHR '' '') @ str_join '' '' (dropWhile (\<lambda>t. t = []) xs)"
proof (induction xs)
  case Nil
  show ?case by simp
next
  case (Cons x xs)
  show ?case
  proof (cases "x = []")
    case False
    then have "str_join '' '' (x # xs) = replicate 0 (CHR '' '') @ str_join '' '' (dropWhile (\<lambda>t. t = []) (x # xs))"
      by simp
    then show ?thesis by blast
  next
    case True
    show ?thesis
    proof (cases xs)
      case Nil
      with True have "str_join '' '' (x # xs) = replicate 0 (CHR '' '') @ str_join '' '' (dropWhile (\<lambda>t. t = []) (x # xs))"
        by simp
      then show ?thesis by blast
    next
      case (Cons y ys)
      from Cons.IH obtain k where
        k: "str_join '' '' xs = replicate k (CHR '' '') @ str_join '' '' (dropWhile (\<lambda>t. t = []) xs)"
        by blast
      have "str_join '' '' (x # xs) = replicate (Suc k) (CHR '' '') @ str_join '' '' (dropWhile (\<lambda>t. t = []) (x # xs))"
        using True Cons k by simp
      then show ?thesis by blast
    qed
  qed
qed

lemma strip_leading_spaces: "strip (replicate k (CHR '' '') @ s) = strip s"
proof -
  have "dropWhile isspace (replicate k (CHR '' '') @ s) = dropWhile isspace s"
    by (induction k) (simp_all add: isspace_def)
  then show ?thesis by (simp add: strip_def)
qed

lemma escape_spaces: "concat (replicate k (escape_char (CHR '' ''))) = replicate k (CHR '' '')"
  by (induction k) (simp_all add: escape_char_def)

lemma cell_markdown_join:
  "cell_markdown c = strip (escape_cell (str_join '' '' (map strip c)))"
proof -
  obtain k where
    k: "str_join '' '' (map strip c) =
          replicate k (CHR '' '') @ str_join '' '' (dropWhile (\<lambda>t. t = []) (map strip c))"
    using str_join_leading_empty by blast
  show ?thesis
    by (simp add: cell_markdown_def k join_paragraphs_empty escape_cell_char
        escape_spaces strip_leading_spaces)
qed

section \<open>Facts about the output file name and the scenario document\<close>

lemma docx_prefix_inside:
  assumes "prefix ''.docx'' (s @ ''.docx'')" and "s \<noteq> []"
  shows "prefix ''.docx'' s"
proof -
  obtain a s1 where s: "s = a # s1" using assms(2) by (cases s) auto
  show ?thesis
  proof (cases s1)
    case Nil
    with assms(1) s show ?thesis by simp
  next
    case (Cons b s2)
    note s1 = Cons
    show ?thesis
    proof (cases s2)
      case Nil
      with assms(1) s s1 show ?thesis by simp
    next
      case (Cons c s3)
      note s2 = Cons
      show ?thesis
      proof (cases s3)
        case Nil
        with assms(1) s s1 s2 show ?thesis by simp
      next
        case (Cons d s4)
        note s3 = Cons
        show ?thesis
        proof (cases s4)
          case Nil
          with assms(1) s s1 s2 s3 show ?thesis by simp
        next
          case (Cons e s5)
          with assms(1) s s1 s2 s3 show ?thesis by simp
        qed
      qed
    qed
  qed
qed

lemma str_replace_no_match:
  "old \<noteq> [] \<Longrightarrow> \<not> prefix old (c # cs) \<Longrightarrow>
   str_replace old new (c # cs) = c # str_replace old new cs"
  by (subst str_replace.simps) simp

lemma output_filename_single_extension:
  assumes "\<not> contains ''.docx'' stem"
  shows "output_filename (stem @ ''.docx'') = stem @ ''_exact_extraction.md''"
  using assms
proof (induction stem)
  case Nil
  show ?case by (simp add: output_filename_def str_replace.simps)
next
  case (Cons c cs)
  from Cons.prems have np: "\<not> prefix ''.docx'' (c # cs)" and nc: "\<not> contains ''.docx'' cs"
    by simp_all
  have "\<not> prefix ''.docx'' ((c # cs) @ ''.docx'')"
    using np docx_prefix_inside [of "c # cs"] by blast
  then have "\<not> prefix ''.docx'' (c # (cs @ ''.docx''))" by simp
  then have "str_replace ''.docx'' ''_exact_extraction.md'' (c # (cs @ ''.docx'')) =
             c # str_replace ''.docx'' ''_exact_extraction.md'' (cs @ ''.docx'')"
    by (rule str_replace_no_match [rotated]) simp
  with Cons.IH [OF nc] show ?case by (simp add: output_filename_def)
qed

lemma output_filename_script_input:
  "output_filename ''Internal Doc - Mdm. Clients Name.docx'' =
     ''Internal Doc - Mdm. Clients Name_exact_extraction.md''"
  by (simp add: output_filename_def str_replace.simps)

lemma report_doc_content:
  "markdown_content_exact report_doc = [''# Report'', [], ''Hello world'', []]"
  "markdown_content_simple report_doc = [''# Report'', [], ''Hello world'', []]"
  by (simp_all add: report_doc_def markdown_content_exact_def markdown_content_simple_def
      markdown_line_def style_name_def strip_def isspace_def)

section \<open>Properties of the paragraph pass\<close>

text \<open>
  C1 (as amended): the paragraph pass appends, for every paragraph whose stripped text is
  non-empty and in document order, the stripped text behind the prefix of the first rule of
  the ordered, case-sensitive style table that applies (no prefix when none applies),
  followed by a blank line. A style name containing \<open>Heading 2\<close> is given the prefix
  \<open>## \<close> when it contains neither \<open>Title\<close> nor \<open>Heading 1\<close>, the two rules tried before.
\<close>

theorem style_mapping_first_match:
  "process_paragraphs md ps =
     md @ concat (map (\<lambda>p. [first_match heading_rules (style_name p) @ strip (p_text p), []])
                    (filter (\<lambda>p. strip (p_text p) \<noteq> []) ps)) \<and>
   (contains ''Heading 2'' style \<and> \<not> contains ''Title'' style \<and> \<not> contains ''Heading 1'' style
      \<longrightarrow> markdown_line style txt = ''## '' @ txt)"
proof
  have "concat (map para_lines ps) =
        concat (map (\<lambda>p. [first_match heading_rules (style_name p) @ strip (p_text p), []])
                    (filter (\<lambda>p. strip (p_text p) \<noteq> []) ps))"
    by (induction ps) (simp_all add: para_lines_def markdown_line_first_match)
  then show "process_paragraphs md ps =
     md @ concat (map (\<lambda>p. [first_match heading_rules (style_name p) @ strip (p_text p), []])
                    (filter (\<lambda>p. strip (p_text p) \<noteq> []) ps))"
    by (simp add: process_paragraphs_concat)
  show "contains ''Heading 2'' style \<and> \<not> contains ''Title'' style \<and> \<not> contains ''Heading 1'' style
      \<longrightarrow> markdown_line style txt = ''## '' @ txt"
  proof
    assume h: "contains ''Heading 2'' style \<and> \<not> contains ''Title'' style \<and> \<not> contains ''Heading 1'' style"
    then have "style \<noteq> ''Heading1''" by auto
    with h show "markdown_line style txt = ''## '' @ txt"
      by (simp add: markdown_line_def)
  qed
qed

theorem style_mapping_first_match_witness:
  "process_paragraphs []
     [\<lparr>p_text = ''Intro'', p_style = Some ''Heading 2''\<rparr>,
      \<lparr>p_text = '' '', p_style = Some ''Title''\<rparr>,
      \<lparr>p_text = ''Body'', p_style = Some ''List Paragraph''\<rparr>] =
     [''## Intro'', [], ''Body'', []] \<and>
   contains ''Heading 2'' ''My Heading 2'' \<and> \<not> contains ''Title'' ''My Heading 2'' \<and>
   \<not> contains ''Heading 1'' ''My Heading 2'' \<and>
   markdown_line ''My Heading 2'' ''Intro'' = ''## Intro''"
  using style_mapping_first_match [of "[]"
      "[\<lparr>p_text = ''Intro'', p_style = Some ''Heading 2''\<rparr>,
        \<lparr>p_text = '' '', p_style = Some ''Title''\<rparr>,
        \<lparr>p_text = ''Body'', p_style = Some ''List Paragraph''\<rparr>]"
      "''My Heading 2''" "''Intro''"]
  by (simp add: heading_rules_def style_name_def strip_def isspace_def)

text \<open>
  C1 as first stated also promised \<open>## \<close> for every style name containing \<open>Heading 2\<close>.
  The style \<open>Title Heading 2\<close> contains it and is given \<open># \<close>, since the \<open>Title\<close> rule comes
  first.
\<close>

theorem heading_2_after_title_counterexample:
  "contains ''Heading 2'' ''Title Heading 2'' \<and>
   process_paragraphs [] [\<lparr>p_text = ''x'', p_style = Some ''Title Heading 2''\<rparr>] = [''# x'', []] \<and>
   \<not> prefix ''## '' (markdown_line ''Title Heading 2'' ''x'')"
  by (simp add: markdown_line_def style_name_def strip_def isspace_def)

text \<open>
  C9: a paragraph whose stripped text is empty adds no line to the output, neither a
  content line nor a blank line, wherever it stands among the paragraphs: the output with
  the paragraph is the output without it.
\<close>

theorem empty_paragraph_no_lines:
  assumes "strip (p_text p) = []"
  shows "process_paragraphs md (ps @ p # qs) = process_paragraphs md (ps @ qs)"
  using assms by (simp add: process_paragraphs_concat para_lines_def)

theorem empty_paragraph_no_lines_witness:
  "strip (p_text \<lparr>p_text = ''  '', p_style = Some ''Heading 1''\<rparr>) = [] \<and>
   process_paragraphs [''x'']
     ([\<lparr>p_text = ''a'', p_style = None\<rparr>] @ \<lparr>p_text = ''  '', p_style = Some ''Heading 1''\<rparr> # [\<lparr>p_text = ''b'', p_style = None\<rparr>])
   = [''x'', ''a'', [], ''b'', []]"
proof -
  have h: "strip (p_text \<lparr>p_text = ''  '', p_style = Some ''Heading 1''\<rparr>) = []"
    by (simp add: strip_def isspace_def)
  show ?thesis
    using h empty_paragraph_no_lines [OF h, of "[''x'']" "[\<lparr>p_text = ''a'', p_style = None\<rparr>]" "[\<lparr>p_text = ''b'', p_style = None\<rparr>]"]
    by (simp add: strip_def isspace_def markdown_line_def style_name_def)
qed

text \<open>
  C10: a non-empty paragraph whose style is absent is given the style name \<open>Normal\<close>, and
  its stripped text is appended as it is, with no heading prefix, followed by the blank line.
\<close>

theorem absent_style_is_normal:
  assumes "p_style p = None" and "strip (p_text p) \<noteq> []"
  shows "style_name p = ''Normal'' \<and>
         process_paragraphs md (p # ps) = process_paragraphs (md @ [strip (p_text p), []]) ps"
  using assms by (simp add: style_name_def markdown_line_def)

theorem absent_style_is_normal_witness:
  "p_style \<lparr>p_text = '' Hello '', p_style = None\<rparr> = None \<and>
   strip (p_text \<lparr>p_text = '' Hello '', p_style = None\<rparr>) \<noteq> [] \<and>
   process_paragraphs [] [\<lparr>p_text = '' Hello '', p_style = None\<rparr>] = [''Hello'', []]"
proof -
  have h1: "p_style \<lparr>p_text = '' Hello '', p_style = None\<rparr> = None" by simp
  have h2: "strip (p_text \<lparr>p_text = '' Hello '', p_style = None\<rparr>) \<noteq> []"
    by (simp add: strip_def isspace_def)
  show ?thesis
    using h1 h2 absent_style_is_normal [OF h1 h2, of "[]" "[]"]
    by (simp add: strip_def isspace_def style_name_def markdown_line_def)
qed

section \<open>Properties of the table pass\<close>

text \<open>
  C2: for a table with at least one row and at least one column, both scripts append the
  same grid: the first row as header, a separator with one \<open>---\<close> per column, and one line
  per remaining row, every row right-padded with empty cells to \<open>max_cells\<close>, the largest
  number of cells of a row. Every line of the grid, read back by splitting at its unescaped
  pipes, has exactly \<open>max_cells\<close> fields.
\<close>

theorem grid_is_rectangular:
  assumes "t \<noteq> []" and "0 < max_cells t"
  shows "table_grid_exact t =
           row_line (row_data (hd t) @ replicate (max_cells t - length (hd t)) [])
           # row_line (replicate (max_cells t) ''---'')
           # map (\<lambda>r. row_line (row_data r @ replicate (max_cells t - length r) [])) (tl t) \<and>
         table_grid_simple t = table_grid_exact t \<and>
         (\<forall>l \<in> set (table_grid_exact t). length (grid_fields l) = max_cells t) \<and>
         grid_fields (row_line (replicate (max_cells t) ''---'')) = replicate (max_cells t) '' --- ''"
proof -
  let ?pad = "\<lambda>r. pad_row (max_cells t) (row_data r)"
  have pad: "?pad r = row_data r @ replicate (max_cells t - length r) []" for r
    by (simp add: pad_row_eq length_row_data)
  have shape: "table_grid_exact t =
      row_line (?pad (hd t)) # row_line (replicate (max_cells t) ''---'') # map (\<lambda>r. row_line (?pad r)) (tl t)"
    using assms by (simp add: table_grid_exact_eq grid_lines_padded)
  have same: "table_grid_simple t = table_grid_exact t"
    using assms by (simp add: table_grid_exact_eq table_grid_simple_eq)
  have sep: "grid_fields (row_line (replicate (max_cells t) ''---'')) = replicate (max_cells t) '' --- ''"
    using assms(2) by (rule fields_separator)
  have row: "length (grid_fields (row_line (?pad r))) = max_cells t" if "r \<in> set t" for r
    using that assms(2) by (simp add: fields_padded_row padded_row(1))
  have hd_in: "hd t \<in> set t" using assms(1) by simp
  have tl_in: "r \<in> set t" if "r \<in> set (tl t)" for r
    using that assms(1) by (cases t) auto
  have all: "\<forall>l \<in> set (table_grid_exact t). length (grid_fields l) = max_cells t"
    unfolding shape using row [OF hd_in] row [OF tl_in] sep by auto
  show ?thesis
    using shape same all sep by (simp only: pad)
qed

theorem grid_is_rectangular_witness:
  "[[[''a''], [''b'']], [[''c'']]] \<noteq> ([] :: table) \<and>
   max_cells [[[''a''], [''b'']], [[''c'']]] = 2 \<and>
   table_grid_exact [[[''a''], [''b'']], [[''c'']]] = [''| a | b |'', ''| --- | --- |'', ''| c |  |''] \<and>
   table_grid_simple [[[''a''], [''b'']], [[''c'']]] = [''| a | b |'', ''| --- | --- |'', ''| c |  |''] \<and>
   grid_fields ''| c |  |'' = ['' c '', ''  '']"
proof -
  have h1: "[[[''a''], [''b'']], [[''c'']]] \<noteq> ([] :: table)" by simp
  have m: "max_cells [[[''a''], [''b'']], [[''c'']]] = 2" by (simp add: max_cells_def)
  then have h2: "0 < max_cells [[[''a''], [''b'']], [[''c'']]]" by simp
  have cells: "row_data [[''a''], [''b'']] = [''a'', ''b'']" "row_data [[''c'']] = [''c'']"
    by (simp_all add: row_data_def cell_markdown_def escape_cell_def str_replace_single
        strip_def isspace_def)
  have f: "grid_fields ''| c |  |'' = ['' c '', ''  '']" by (simp add: grid_fields_def)
  show ?thesis
    using grid_is_rectangular [OF h1 h2] h1
    by (simp add: m cells f row_line_def numeral_2_eq_2)
qed

text \<open>
  C3: the rendered text of a cell is the joined and stripped text of its paragraphs in which
  every pipe has a backslash put before it and every line feed or carriage return is replaced
  by one space; it contains no line feed, no carriage return and no pipe without a backslash
  before it. So, for every row of a table that has a grid, the line of the row is in the
  grid of both scripts, and splitting it at its unescaped pipes gives back the padded cells,
  \<open>max_cells\<close> fields in all.
\<close>

theorem escaped_cells_keep_the_grid:
  "cell_markdown c = concat (map escape_char (strip (join_paragraphs [] c))) \<and>
   escaped_pipes False (cell_markdown c) \<and>
   CHR 0x0A \<notin> set (cell_markdown c) \<and> CHR 0x0D \<notin> set (cell_markdown c) \<and>
   (t \<noteq> [] \<and> 0 < max_cells t \<and> r \<in> set t \<longrightarrow>
      row_line (pad_row (max_cells t) (row_data r)) \<in> set (table_grid_exact t) \<and>
      row_line (pad_row (max_cells t) (row_data r)) \<in> set (table_grid_simple t) \<and>
      grid_fields (row_line (pad_row (max_cells t) (row_data r))) =
        map (\<lambda>c. '' '' @ c @ '' '') (map cell_markdown r @ replicate (max_cells t - length r) []) \<and>
      length (grid_fields (row_line (pad_row (max_cells t) (row_data r)))) = max_cells t)"
proof -
  have esc: "cell_markdown c = concat (map escape_char (strip (join_paragraphs [] c)))"
    by (rule cell_markdown_trim_then_escape)
  have "CHR 0x0A \<notin> set (escape_char x)" "CHR 0x0D \<notin> set (escape_char x)" for x
    by (auto simp: escape_char_def)
  then have nl: "CHR 0x0A \<notin> set (cell_markdown c)" "CHR 0x0D \<notin> set (cell_markdown c)"
    by (auto simp: esc)
  have rows: "row_line (pad_row (max_cells t) (row_data r)) \<in> set (table_grid_exact t) \<and>
      row_line (pad_row (max_cells t) (row_data r)) \<in> set (table_grid_simple t) \<and>
      grid_fields (row_line (pad_row (max_cells t) (row_data r))) =
        map (\<lambda>c. '' '' @ c @ '' '') (map cell_markdown r @ replicate (max_cells t - length r) []) \<and>
      length (grid_fields (row_line (pad_row (max_cells t) (row_data r)))) = max_cells t"
    if h: "t \<noteq> []" "0 < max_cells t" "r \<in> set t"
  proof -
    have mem: "row_line (pad_row (max_cells t) (row_data r))
                 \<in> set (grid_lines (map (\<lambda>r. pad_row (max_cells t) (row_data r)) t))"
    proof (cases t)
      case Nil
      with h(1) show ?thesis by simp
    next
      case (Cons r0 rs)
      with h(3) show ?thesis by auto
    qed
    have f: "grid_fields (row_line (pad_row (max_cells t) (row_data r))) =
               map (\<lambda>c. '' '' @ c @ '' '') (pad_row (max_cells t) (row_data r))"
      using h(3) h(2) by (rule fields_padded_row)
    have len: "length (pad_row (max_cells t) (row_data r)) = max_cells t"
      using h(3) by (rule padded_row(1))
    have pad: "pad_row (max_cells t) (row_data r) =
                 map cell_markdown r @ replicate (max_cells t - length r) []"
      by (simp add: pad_row_eq row_data_def)
    show ?thesis
      using mem f len h(1) h(2)
      by (simp add: table_grid_exact_eq table_grid_simple_eq pad)
  qed
  show ?thesis
    using esc nl rows escaped_pipes_cell_markdown [of c] by blast
qed

theorem escaped_cells_keep_the_grid_witness:
  "cell_markdown [[CHR ''a'', CHR ''|'', CHR 0x0A, CHR ''b'', CHR 0x0D]] = [CHR ''a'', CHR 0x5C, CHR ''|'', CHR '' '', CHR ''b''] \<and>
   max_cells [[[''x|y''], [''z'']], [[''w'']]] = 2 \<and>
   [[''x|y''], [''z'']] \<in> set [[[''x|y''], [''z'']], [[''w'']]] \<and>
   grid_fields (row_line (pad_row 2 (row_data [[''x|y''], [''z'']]))) =
     [[CHR '' '', CHR ''x'', CHR 0x5C, CHR ''|'', CHR ''y'', CHR '' ''], '' z '']"
proof -
  have m: "max_cells [[[''x|y''], [''z'']], [[''w'']]] = 2" by (simp add: max_cells_def)
  have h: "[[[''x|y''], [''z'']], [[''w'']]] \<noteq> ([] :: table) \<and>
           0 < max_cells [[[''x|y''], [''z'']], [[''w'']]] \<and>
           [[''x|y''], [''z'']] \<in> set [[[''x|y''], [''z'']], [[''w'']]]"
    by (simp add: m)
  have c: "cell_markdown [''x|y''] = [CHR ''x'', CHR 0x5C, CHR ''|'', CHR ''y'']"
          "cell_markdown [''z''] = ''z''"
          "cell_markdown [[CHR ''a'', CHR ''|'', CHR 0x0A, CHR ''b'', CHR 0x0D]] =
             [CHR ''a'', CHR 0x5C, CHR ''|'', CHR '' '', CHR ''b'']"
    by (simp_all add: cell_markdown_def escape_cell_def str_replace_single strip_def isspace_def)
  show ?thesis
    using escaped_cells_keep_the_grid
      [of "[[CHR ''a'', CHR ''|'', CHR 0x0A, CHR ''b'', CHR 0x0D]]"
          "[[[''x|y''], [''z'']], [[''w'']]]" "[[''x|y''], [''z'']]"] h
    by (simp add: m c)
qed

text \<open>
  C5 (as amended): for a table with no rows, or whose rows all have no cells, both scripts
  append no grid line: the table's lines are its heading \<open>## Table N\<close>, a blank line, and
  the blank line that closes every table.
\<close>

theorem empty_table_heading_only:
  assumes "t = [] \<or> max_cells t = 0"
  shows "table_grid_exact t = [] \<and> table_grid_simple t = [] \<and>
         table_lines_exact table_idx t = [''## Table '' @ str_nat (table_idx + 1), [], []] \<and>
         table_lines_simple table_idx t = [''## Table '' @ str_nat (table_idx + 1), [], []]"
  using assms
  by (simp add: table_lines_exact_def table_lines_simple_def table_grid_exact_empty
      table_grid_simple_empty)

theorem empty_table_heading_only_witness:
  "max_cells [[], [] :: row] = 0 \<and>
   table_lines_exact 2 [[], []] = [''## Table 3'', [], []] \<and>
   table_lines_simple 2 [[], []] = [''## Table 3'', [], []] \<and>
   table_lines_exact 0 [] = [''## Table 1'', [], []]"
proof -
  have h: "[[], [] :: row] = [] \<or> max_cells [[], [] :: row] = 0"
    by (simp add: max_cells_def)
  have h0: "([] :: table) = [] \<or> max_cells ([] :: table) = 0" by simp
  show ?thesis
    using empty_table_heading_only [OF h, of 2] empty_table_heading_only [OF h0, of 0]
    by (simp add: max_cells_def str_nat.simps)
qed

text \<open>
  C5 as first stated has the heading followed by one blank line only. For the empty first
  table both scripts append three entries, the heading and two blank lines.
\<close>

theorem empty_table_heading_only_counterexample:
  "table_lines_exact 0 [] = [''## Table 1'', [], []] \<and>
   table_lines_simple 0 [] = [''## Table 1'', [], []] \<and>
   table_lines_exact 0 [] \<noteq> [''## Table 1'', []] \<and>
   table_lines_simple 0 [] \<noteq> [''## Table 1'', []]"
  by (simp add: table_lines_exact_def table_lines_simple_def table_grid_exact_def
      table_grid_simple_def str_nat.simps)

text \<open>
  C7 (as amended): the text the cell loop builds is the stripped paragraph texts, without
  the leading ones that are empty, joined with exactly one space between each consecutive
  pair; the rendered cell is what escaping and stripping make of the single-space join of
  all the stripped paragraph texts.
\<close>

theorem cell_join_single_space:
  "join_paragraphs [] c = str_join '' '' (dropWhile (\<lambda>t. t = []) (map strip c)) \<and>
   cell_markdown c = strip (escape_cell (str_join '' '' (map strip c)))"
  using join_paragraphs_empty [of c] cell_markdown_join [of c] by blast

theorem cell_join_single_space_witness:
  "join_paragraphs [] ['' a '', '''', ''b'', '' ''] = ''a  b '' \<and>
   cell_markdown ['' a '', '''', ''b'', '' ''] = ''a  b'' \<and>
   join_paragraphs [] ['''', ''x'', ''y''] = ''x y''"
  using cell_join_single_space [of "['' a '', '''', ''b'', '' '']"]
    cell_join_single_space [of "['''', ''x'', ''y'']"]
  by (simp add: escape_cell_def str_replace_single strip_def isspace_def)

text \<open>
  C7 as first stated has one space between every consecutive pair, empty paragraphs
  included. For the cell with an empty paragraph followed by \<open>a\<close> the loop builds \<open>a\<close> and
  the rendered text is \<open>a\<close>, while the single-space join is a space followed by \<open>a\<close>.
\<close>

theorem cell_join_counterexample:
  "join_paragraphs [] ['''', ''a''] = ''a'' \<and>
   cell_markdown ['''', ''a''] = ''a'' \<and>
   str_join '' '' (map strip ['''', ''a'']) = '' a''"
  by (simp add: cell_markdown_def escape_cell_def str_replace_single strip_def isspace_def)

section \<open>Properties of the conversion as a whole\<close>

text \<open>
  What the returned value tells: \<open>extract_docx_simple\<close> returns \<open>None\<close> exactly when the run
  reports an error; \<open>extract_docx_exact\<close> returns \<open>None\<close> on every run.
\<close>

lemma simple_none_iff_report:
  "(fst (extract_docx_simple fs f) = None) = (snd (snd (extract_docx_simple fs f)) \<noteq> [])"
  by (simp add: extract_docx_simple_def write_markdown_def
      split: option.splits file_content.splits)

lemma exact_always_none: "fst (extract_docx_exact fs f) = None"
  by (simp add: extract_docx_exact_def write_markdown_def
      split: option.splits file_content.splits)

text \<open>
  C8 (as amended): when the input file does not exist, both functions leave the file
  system as it was (no output file is created or overwritten), report the error line and
  return \<open>None\<close>. For \<open>extract_docx_simple\<close> the value \<open>None\<close> indicates failure: on any
  input it is returned exactly when an error is reported. For \<open>extract_docx_exact\<close> it
  does not: that function returns \<open>None\<close> on every run.
\<close>

theorem missing_input_returns_none:
  assumes "files fs filename = None"
  shows "extract_docx_exact fs filename =
           (None, fs, [Line (''Error: File '' @ [CHR 0x27] @ filename @ [CHR 0x27] @ '' not found'')]) \<and>
         extract_docx_simple fs filename =
           (None, fs, [Line (''Error: File '' @ [CHR 0x27] @ filename @ [CHR 0x27] @ '' not found'')]) \<and>
         (fst (extract_docx_simple fs' f') = None) = (snd (snd (extract_docx_simple fs' f')) \<noteq> []) \<and>
         fst (extract_docx_exact fs' f') = None"
  using assms simple_none_iff_report [of fs' f'] exact_always_none [of fs' f']
  by (simp add: extract_docx_exact_def extract_docx_simple_def)

theorem missing_input_returns_none_witness:
  "files \<lparr>files = Map.empty, writable = (\<lambda>_. True)\<rparr> ''a.docx'' = None \<and>
   fst (extract_docx_simple \<lparr>files = Map.empty, writable = (\<lambda>_. True)\<rparr> ''a.docx'') = None \<and>
   fst (snd (extract_docx_simple \<lparr>files = Map.empty, writable = (\<lambda>_. True)\<rparr> ''a.docx'')) =
     \<lparr>files = Map.empty, writable = (\<lambda>_. True)\<rparr> \<and>
   snd (snd (extract_docx_simple \<lparr>files = Map.empty, writable = (\<lambda>_. True)\<rparr> ''a.docx'')) =
     [Line (''Error: File '' @ [CHR 0x27] @ ''a.docx'' @ [CHR 0x27] @ '' not found'')] \<and>
   extract_docx_exact \<lparr>files = Map.empty, writable = (\<lambda>_. True)\<rparr> ''a.docx'' =
     (None, \<lparr>files = Map.empty, writable = (\<lambda>_. True)\<rparr>,
      [Line (''Error: File '' @ [CHR 0x27] @ ''a.docx'' @ [CHR 0x27] @ '' not found'')]) \<and>
   fst (extract_docx_simple
          \<lparr>files = [''report.docx'' \<mapsto> Docx report_doc], writable = (\<lambda>_. True)\<rparr> ''report.docx'')
     = Some ''report_exact_extraction.md''"
proof -
  let ?fs = "\<lparr>files = Map.empty, writable = (\<lambda>_. True)\<rparr>"
  let ?ok = "\<lparr>files = [''report.docx'' \<mapsto> Docx report_doc], writable = (\<lambda>_. True)\<rparr>"
  have h: "files ?fs ''a.docx'' = None" by simp
  have ok: "extract_docx_simple ?ok ''report.docx'' =
      (Some ''report_exact_extraction.md'',
       ?ok\<lparr>files := (files ?ok)(''report_exact_extraction.md'' \<mapsto>
          NotDocx (str_join [CHR 0x0A] (markdown_content_simple report_doc)))\<rparr>, [])"
    by (simp add: extract_docx_simple_def write_markdown_def output_filename_def str_replace.simps)
  show ?thesis
    using h missing_input_returns_none [OF h, of ?ok "''report.docx''"] ok by simp
qed

text \<open>
  C8 as first stated has the run return a failure indicator. \<open>extract_docx_exact\<close> returns
  \<open>None\<close> for the missing file and returns \<open>None\<close> as well when it has read the scenario
  document and written its output with no error reported.
\<close>

theorem exact_returns_none_on_success_counterexample:
  "fst (extract_docx_exact
          \<lparr>files = [''report.docx'' \<mapsto> Docx report_doc], writable = (\<lambda>_. True)\<rparr> ''report.docx'') = None \<and>
   snd (snd (extract_docx_exact
          \<lparr>files = [''report.docx'' \<mapsto> Docx report_doc], writable = (\<lambda>_. True)\<rparr> ''report.docx'')) = [] \<and>
   files (fst (snd (extract_docx_exact
          \<lparr>files = [''report.docx'' \<mapsto> Docx report_doc], writable = (\<lambda>_. True)\<rparr> ''report.docx'')))
     ''report_exact_extraction.md'' =
     Some (NotDocx (''# Report'' @ [CHR 0x0A, CHR 0x0A] @ ''Hello world'' @ [CHR 0x0A])) \<and>
   fst (extract_docx_exact \<lparr>files = Map.empty, writable = (\<lambda>_. True)\<rparr> ''report.docx'') = None"
  by (simp add: extract_docx_exact_def write_markdown_def output_filename_def str_replace.simps
      report_doc_content)

text \<open>
  C4: the output path is meant to be the input name with its extension \<open>.docx\<close> replaced by
  \<open>_exact_extraction.md\<close>. The code replaces every occurrence of \<open>.docx\<close> in the path: for
  the file \<open>report.docx\<close> in the directory \<open>v1.docx\<close> it also rewrites the directory name,
  and for \<open>Report.DOCX\<close> it replaces nothing, so that the output path is the input path.
\<close>

theorem output_filename_replaces_every_docx:
  "output_filename ''v1.docx/report.docx'' = ''v1_exact_extraction.md/report_exact_extraction.md'' \<and>
   output_filename ''v1.docx/report.docx'' \<noteq> ''v1.docx/report_exact_extraction.md'' \<and>
   fst (extract_docx_simple
          \<lparr>files = [''v1.docx/report.docx'' \<mapsto> Docx report_doc], writable = (\<lambda>_. True)\<rparr>
          ''v1.docx/report.docx'') = Some ''v1_exact_extraction.md/report_exact_extraction.md'' \<and>
   output_filename ''Report.DOCX'' = ''Report.DOCX''"
  by (simp add: output_filename_def str_replace.simps extract_docx_simple_def write_markdown_def)

text \<open>
  C6 (as amended): for the scenario document both scripts build the four lines
  \<open># Report\<close>, blank, \<open>Hello world\<close>, blank, with no rule and no table section, and write
  them joined by line feeds: the content ends with one line feed after \<open>Hello world\<close>.
\<close>

theorem report_scenario_output:
  assumes "files fs filename = Some (Docx report_doc)"
      and "writable fs (output_filename filename)"
  shows "extract_docx_simple fs filename =
           (Some (output_filename filename),
            fs\<lparr>files := (files fs)(output_filename filename \<mapsto>
                   NotDocx (''# Report'' @ [CHR 0x0A, CHR 0x0A] @ ''Hello world'' @ [CHR 0x0A]))\<rparr>,
            []) \<and>
         extract_docx_exact fs filename =
           (None,
            fs\<lparr>files := (files fs)(output_filename filename \<mapsto>
                   NotDocx (''# Report'' @ [CHR 0x0A, CHR 0x0A] @ ''Hello world'' @ [CHR 0x0A]))\<rparr>,
            []) \<and>
         markdown_content_simple report_doc = [''# Report'', [], ''Hello world'', []] \<and>
         markdown_content_exact report_doc = [''# Report'', [], ''Hello world'', []]"
  using assms
  by (simp add: extract_docx_simple_def extract_docx_exact_def write_markdown_def report_doc_content)

theorem report_scenario_output_witness:
  "files \<lparr>files = [''report.docx'' \<mapsto> Docx report_doc], writable = (\<lambda>_. True)\<rparr> ''report.docx''
     = Some (Docx report_doc) \<and>
   output_filename ''report.docx'' = ''report_exact_extraction.md'' \<and>
   extract_docx_simple \<lparr>files = [''report.docx'' \<mapsto> Docx report_doc], writable = (\<lambda>_. True)\<rparr> ''report.docx'' =
     (Some ''report_exact_extraction.md'',
      \<lparr>files = [''report.docx'' \<mapsto> Docx report_doc,
                ''report_exact_extraction.md'' \<mapsto>
                   NotDocx (''# Report'' @ [CHR 0x0A, CHR 0x0A] @ ''Hello world'' @ [CHR 0x0A])],
       writable = (\<lambda>_. True)\<rparr>,
      [])"
proof -
  let ?fs = "\<lparr>files = [''report.docx'' \<mapsto> Docx report_doc], writable = (\<lambda>_. True)\<rparr>"
  have o: "output_filename ''report.docx'' = ''report_exact_extraction.md''"
    by (simp add: output_filename_def str_replace.simps)
  have h1: "files ?fs ''report.docx'' = Some (Docx report_doc)" by simp
  have h2: "writable ?fs (output_filename ''report.docx'')" by simp
  show ?thesis
    using report_scenario_output [OF h1 h2] o by simp
qed

text \<open>
  C6 as first stated has the content end with two line feeds. Joining puts a line feed
  between the entries only, so the written content ends with one.
\<close>

theorem report_scenario_counterexample:
  "files (fst (snd (extract_docx_simple
            \<lparr>files = [''report.docx'' \<mapsto> Docx report_doc], writable = (\<lambda>_. True)\<rparr> ''report.docx'')))
     ''report_exact_extraction.md'' =
     Some (NotDocx (''# Report'' @ [CHR 0x0A, CHR 0x0A] @ ''Hello world'' @ [CHR 0x0A])) \<and>
   files (fst (snd (extract_docx_simple
            \<lparr>files = [''report.docx'' \<mapsto> Docx report_doc], writable = (\<lambda>_. True)\<rparr> ''report.docx'')))
     ''report_exact_extraction.md'' \<noteq>
     Some (NotDocx (''# Report'' @ [CHR 0x0A, CHR 0x0A] @ ''Hello world'' @ [CHR 0x0A, CHR 0x0A]))"
  by (simp add: output_filename_def str_replace.simps extract_docx_simple_def write_markdown_def
      report_doc_def markdown_content_simple_def markdown_line_def style_name_def
      strip_def isspace_def)

end
